theory Spec2Isabelle
  imports Main "HOL-Library.Word"
begin

section \<open>Change-aware indexing at startup (index.js, lines 15--64)\<close>

subsection \<open>Errors, files and the outside world\<close>

text \<open>
  Every exception the script can meet is a value. \<open>ENOENT\<close> and \<open>EACCES\<close> are the two
  ways a call of the \<open>fs\<close> module fails on a path; the others name the failing
  collaborator (CSV loader, embedding endpoint, vector store, chat model). \<open>TypeError\<close>
  stands for a value of the wrong shape reaching a stage.
\<close>

datatype error =
    ENOENT string
  | EACCES string
  | ParseError
  | EmbeddingError
  | StorageError
  | ModelCallError
  | TypeError

text \<open>
  A path of the file system holds nothing, a file whose contents can be read, or a file
  that is present and cannot be read (no permission, or a directory).
\<close>

datatype fsentry = Readable string | Unreadable

type_synonym filesystem = "string \<rightharpoonup> fsentry"

record document =
  pageContent :: string
  metadata :: "(string \<times> string) list"

text \<open>An embedding vector; its components are opaque to the script.\<close>

datatype vector = Vector "int list"

text \<open>The vector store: the documents and the vector of each.\<close>

datatype HNSWLib = HNSWLib (docstore: "document list") (vectors: "vector list")

text \<open>
  The effects the claims speak of, in the order they happen: a call of the embedding
  endpoint with the texts to embed, a completed save of the vector store to
  \<open>DIRECTORY\<close>, and a completed write of a file.
\<close>

datatype event =
    EmbedCall "string list"
  | IndexSaved HNSWLib
  | FileWritten string string

record world =
  files :: filesystem
  vector_db :: "HNSWLib option"
  events :: "event list"

text \<open>
  The collaborators the script calls and does not define. \<open>sha256\<close> is the digest of
  \<open>crypto.createHash('sha256')\<close>, 256 bits for every input; \<open>csv_parse\<close> is what
  \<open>CSVLoader\<close> makes of the file's text; \<open>embedDocuments\<close> is the embedding endpoint;
  \<open>save_fails\<close> says whether saving a store fails and \<open>save_residue\<close> what a failed
  save leaves in the directory; \<open>write_fails\<close> says whether writing a path fails.
\<close>

record env =
  sha256 :: "string \<Rightarrow> 256 word"
  csv_parse :: "string \<Rightarrow> error + document list"
  embedDocuments :: "string list \<Rightarrow> error + vector list"
  save_fails :: "HNSWLib \<Rightarrow> bool"
  save_residue :: "HNSWLib \<Rightarrow> HNSWLib option \<Rightarrow> HNSWLib option"
  write_fails :: "string \<Rightarrow> bool"

definition CSV_FILE_PATH :: string where
  "CSV_FILE_PATH = ''docs/sample_qa.csv''"

definition HASH_FILE_PATH :: string where
  "HASH_FILE_PATH = ''docs/sample_qa_hash.txt''"

subsection \<open>The fs module\<close>

definition existsSync :: "filesystem \<Rightarrow> string \<Rightarrow> bool" where
  "existsSync fs p = (fs p \<noteq> None)"

definition readFileSync :: "filesystem \<Rightarrow> string \<Rightarrow> error + string" where
  "readFileSync fs p =
     (case fs p of
        None \<Rightarrow> Inl (ENOENT p)
      | Some Unreadable \<Rightarrow> Inl (EACCES p)
      | Some (Readable c) \<Rightarrow> Inr c)"

text \<open>
  A write replaces the contents of the path; a write that fails throws and is taken to
  leave the file system as it was.
\<close>

definition writeFileSync :: "env \<Rightarrow> string \<Rightarrow> string \<Rightarrow> world \<Rightarrow> (error + unit) \<times> world" where
  "writeFileSync e p c w =
     (if write_fails e p then (Inl (EACCES p), w)
      else (Inr (), w\<lparr>files := (files w)(p \<mapsto> Readable c),
                       events := events w @ [FileWritten p c]\<rparr>))"

subsection \<open>The fingerprint\<close>

definition hexdigit :: "nat \<Rightarrow> char" where
  "hexdigit n = ''0123456789abcdef'' ! n"

text \<open>\<open>digest('hex')\<close>: the 64 hexadecimal digits of the 256 bits, the highest first.\<close>

definition digest_hex :: "256 word \<Rightarrow> string" where
  "digest_hex d = map (\<lambda>i. hexdigit (unat (and (drop_bit (4 * i) d) 15))) (rev [0..<64])"

text \<open>Lines 30--35.\<close>

definition calculateHash :: "env \<Rightarrow> filesystem \<Rightarrow> string \<Rightarrow> error + string" where
  "calculateHash e fs filePath =
     (case readFileSync fs filePath of
        Inl err \<Rightarrow> Inl err
      | Inr fileBuffer \<Rightarrow> Inr (digest_hex (sha256 e fileBuffer)))"

text \<open>
  Lines 40--46: \<open>previousHash\<close> stays \<open>undefined\<close> (\<open>None\<close>) when the hash file does not
  exist; when it exists it is read, and a failing read throws.
\<close>

definition previousHash :: "filesystem \<Rightarrow> error + string option" where
  "previousHash fs =
     (if existsSync fs HASH_FILE_PATH
      then (case readFileSync fs HASH_FILE_PATH of
              Inl err \<Rightarrow> Inl err
            | Inr s \<Rightarrow> Inr (Some s))
      else Inr None)"

text \<open>JavaScript's \<open>!v\<close> for \<open>v\<close> a string or \<open>undefined\<close>: true of \<open>undefined\<close> and of \<open>""\<close>.\<close>

fun js_not :: "string option \<Rightarrow> bool" where
  "js_not None = True"
| "js_not (Some s) = (s = [])"

text \<open>Line 50: \<open>!previousHash || currentHash !== previousHash\<close>.\<close>

definition rebuild_condition :: "string option \<Rightarrow> string \<Rightarrow> bool" where
  "rebuild_condition prev currentHash = (js_not prev \<or> Some currentHash \<noteq> prev)"

text \<open>
  Lines 38--50 up to the decision: the fresh fingerprint, the stored one, the condition.
  The script has this inline; the specification calls it \<open>shouldReindex\<close>.
\<close>

definition shouldReindex :: "env \<Rightarrow> filesystem \<Rightarrow> error + bool" where
  "shouldReindex e fs =
     (case calculateHash e fs CSV_FILE_PATH of
        Inl err \<Rightarrow> Inl err
      | Inr currentHash \<Rightarrow>
          (case previousHash fs of
             Inl err \<Rightarrow> Inl err
           | Inr prev \<Rightarrow> Inr (rebuild_condition prev currentHash)))"

subsection \<open>The rebuild branch and the load\<close>

text \<open>Lines 53--54: \<open>CSVLoader\<close> reads the file and parses it.\<close>

definition loader_load :: "env \<Rightarrow> world \<Rightarrow> error + document list" where
  "loader_load e w =
     (case readFileSync (files w) CSV_FILE_PATH of
        Inl err \<Rightarrow> Inl err
      | Inr txt \<Rightarrow> csv_parse e txt)"

text \<open>Line 56: the texts of all documents go to the embedding endpoint.\<close>

definition fromDocuments :: "env \<Rightarrow> document list \<Rightarrow> world \<Rightarrow> (error + HNSWLib) \<times> world" where
  "fromDocuments e docs w =
     (let texts = map pageContent docs;
          w1 = w\<lparr>events := events w @ [EmbedCall texts]\<rparr>
      in case embedDocuments e texts of
           Inl err \<Rightarrow> (Inl err, w1)
         | Inr vs \<Rightarrow> (Inr (HNSWLib docs vs), w1))"

text \<open>Line 57.\<close>

definition save :: "env \<Rightarrow> HNSWLib \<Rightarrow> world \<Rightarrow> (error + unit) \<times> world" where
  "save e ix w =
     (if save_fails e ix
      then (Inl StorageError, w\<lparr>vector_db := save_residue e ix (vector_db w)\<rparr>)
      else (Inr (), w\<lparr>vector_db := Some ix, events := events w @ [IndexSaved ix]\<rparr>))"

text \<open>Lines 51--61, the body of the \<open>if\<close>.\<close>

definition rebuild :: "env \<Rightarrow> string \<Rightarrow> world \<Rightarrow> (error + unit) \<times> world" where
  "rebuild e currentHash w =
     (case loader_load e w of
        Inl err \<Rightarrow> (Inl err, w)
      | Inr docs \<Rightarrow>
          (case fromDocuments e docs w of
             (Inl err, w1) \<Rightarrow> (Inl err, w1)
           | (Inr vectorstore_2, w1) \<Rightarrow>
               (case save e vectorstore_2 w1 of
                  (Inl err, w2) \<Rightarrow> (Inl err, w2)
                | (Inr u, w2) \<Rightarrow> writeFileSync e HASH_FILE_PATH currentHash w2)))"

text \<open>Line 64: \<open>HNSWLib.load\<close> reads the directory back; no embedding is computed.\<close>

definition load :: "world \<Rightarrow> error + HNSWLib" where
  "load w = (case vector_db w of None \<Rightarrow> Inl StorageError | Some ix \<Rightarrow> Inr ix)"

text \<open>Lines 38--64: one start of the process, up to the loaded vector store.\<close>

definition startup :: "env \<Rightarrow> world \<Rightarrow> (error + HNSWLib) \<times> world" where
  "startup e w =
     (case calculateHash e (files w) CSV_FILE_PATH of
        Inl err \<Rightarrow> (Inl err, w)
      | Inr currentHash \<Rightarrow>
          (case previousHash (files w) of
             Inl err \<Rightarrow> (Inl err, w)
           | Inr prev \<Rightarrow>
               (case (if rebuild_condition prev currentHash
                      then rebuild e currentHash w
                      else (Inr (), w)) of
                  (Inl err, w1) \<Rightarrow> (Inl err, w1)
                | (Inr u, w1) \<Rightarrow> (load w1, w1))))"

text \<open>The number of calls of the embedding endpoint among some events.\<close>

fun is_EmbedCall :: "event \<Rightarrow> bool" where
  "is_EmbedCall (EmbedCall ts) = True"
| "is_EmbedCall ev = False"

definition embedding_calls :: "event list \<Rightarrow> nat" where
  "embedding_calls evs = length (filter is_EmbedCall evs)"

section \<open>Retrieved documents as one string (index.js, lines 73--77)\<close>

definition newline :: char where
  "newline = CHR 0x0A"

text \<open>\<open>Array.prototype.join\<close> on strings.\<close>

fun join :: "string list \<Rightarrow> string \<Rightarrow> string" where
  "join [] sep = []"
| "join [x] sep = x"
| "join (x # y # ys) sep = x @ sep @ join (y # ys) sep"

text \<open>The template literal of line 75.\<close>

definition doc_block :: "document \<Rightarrow> string" where
  "doc_block d = ''<doc>'' @ [newline] @ pageContent d @ [newline] @ ''</doc>''"

definition convertDocsToString :: "document list \<Rightarrow> string" where
  "convertDocsToString documents = join (map doc_block documents) [newline]"

section \<open>The conversational chain (index.js, lines 68--176)\<close>

subsection \<open>Messages, input objects and the calls that leave the process\<close>

datatype message = SystemMessage string | HumanMessage string | AIMessage string

text \<open>What an input object of a chain holds under a key: a string, a message, messages.\<close>

datatype jsvalue = Str string | Msg message | Msgs "message list"

type_synonym chain_input = "string \<rightharpoonup> jsvalue"

text \<open>
  The calls that leave the process during a turn, logged in the order they are made:
  the chat model of line 104 with its prompt, the retriever with its query, the chat
  model of line 144 with its prompt.
\<close>

datatype call =
    RephraseModelCall "message list"
  | RetrieverCall string
  | AnswerModelCall "message list"

text \<open>
  The collaborators of a turn. Each is given the calls made so far as well as its
  argument, so that it may answer the same argument differently at different times.
\<close>

record models =
  similaritySearch :: "call list \<Rightarrow> HNSWLib \<Rightarrow> string \<Rightarrow> error + document list"
  rephrase_model :: "call list \<Rightarrow> message list \<Rightarrow> error + string"
  answer_model :: "call list \<Rightarrow> message list \<Rightarrow> error + string"

text \<open>A runnable: from an input and the log of calls to a result or an error, and the log.\<close>

type_synonym ('a, 'b) runnable = "'a \<Rightarrow> call list \<Rightarrow> (error + 'b) \<times> call list"

subsection \<open>The combinators of the runnable library\<close>

text \<open>\<open>RunnableSequence.from([r1, r2])\<close>: the output of \<open>r1\<close> is the input of \<open>r2\<close>; an error ends the sequence.\<close>

definition pipe :: "('a, 'b) runnable \<Rightarrow> ('b, 'c) runnable \<Rightarrow> ('a, 'c) runnable" where
  "pipe r1 r2 =
     (\<lambda>x cs. case r1 x cs of
                (Inl err, cs1) \<Rightarrow> (Inl err, cs1)
              | (Inr y, cs1) \<Rightarrow> r2 y cs1)"

text \<open>A plain function as a step of a sequence.\<close>

definition RunnableLambda :: "('a \<Rightarrow> 'b) \<Rightarrow> ('a, 'b) runnable" where
  "RunnableLambda f = (\<lambda>x cs. (Inr (f x), cs))"

text \<open>A prompt template as a step: formatting calls nothing and fails on a missing variable.\<close>

definition invoke_prompt :: "('a \<Rightarrow> error + 'b) \<Rightarrow> ('a, 'b) runnable" where
  "invoke_prompt f = (\<lambda>x cs. (f x, cs))"

text \<open>
  \<open>RunnablePassthrough.assign({key: r})\<close>: the input object with the output of \<open>r\<close> on
  it added under \<open>key\<close>; \<open>wrap\<close> says as what kind of value the output is stored.
\<close>

definition RunnablePassthrough_assign ::
  "string \<Rightarrow> ('v \<Rightarrow> jsvalue) \<Rightarrow> (chain_input, 'v) runnable \<Rightarrow> (chain_input, chain_input) runnable" where
  "RunnablePassthrough_assign key wrap r =
     (\<lambda>input cs. case r input cs of
                    (Inl err, cs1) \<Rightarrow> (Inl err, cs1)
                  | (Inr v, cs1) \<Rightarrow> (Inr (input(key \<mapsto> wrap v)), cs1))"

text \<open>
  A chat model as a step: the call is logged with its prompt, and the text the model
  returns comes back as an assistant message.
\<close>

definition ChatOpenAI ::
  "(call list \<Rightarrow> message list \<Rightarrow> error + string) \<Rightarrow> (message list \<Rightarrow> call) \<Rightarrow>
   (message list, message) runnable" where
  "ChatOpenAI model tag =
     (\<lambda>msgs cs. case model cs msgs of
                   Inl err \<Rightarrow> (Inl err, cs @ [tag msgs])
                 | Inr txt \<Rightarrow> (Inr (AIMessage txt), cs @ [tag msgs]))"

fun message_content :: "message \<Rightarrow> string" where
  "message_content (SystemMessage c) = c"
| "message_content (HumanMessage c) = c"
| "message_content (AIMessage c) = c"

definition StringOutputParser :: "(message, string) runnable" where
  "StringOutputParser = RunnableLambda message_content"

subsection \<open>Retrieval (lines 69--84)\<close>

text \<open>Line 69: the retriever asks the loaded store for the documents nearest to a string.\<close>

definition retriever :: "models \<Rightarrow> HNSWLib \<Rightarrow> (jsvalue option, document list) runnable" where
  "retriever m loadedVectorStore =
     (\<lambda>query cs. case query of
                    Some (Str q) \<Rightarrow> (similaritySearch m cs loadedVectorStore q, cs @ [RetrieverCall q])
                  | _ \<Rightarrow> (Inl TypeError, cs))"

text \<open>Lines 80--84: \<open>(input) => input.question\<close>, the retriever, \<open>convertDocsToString\<close>.\<close>

definition documentRetrievalChain :: "models \<Rightarrow> HNSWLib \<Rightarrow> (chain_input, string) runnable" where
  "documentRetrievalChain m loadedVectorStore =
     pipe (RunnableLambda (\<lambda>input. input ''question''))
    (pipe (retriever m loadedVectorStore)
          (RunnableLambda convertDocsToString))"

subsection \<open>Rephrasing (lines 89--105)\<close>

definition REPHRASE_QUESTION_SYSTEM_TEMPLATE :: string where
  "REPHRASE_QUESTION_SYSTEM_TEMPLATE =
     ''Given the following conversation and a follow up question, '' @ [newline] @
     ''rephrase the follow up question to be a standalone question.''"

text \<open>Lines 93--100: the system text, the messages under \<open>history\<close>, the question in its sentence.\<close>

definition rephraseQuestionChainPrompt :: "chain_input \<Rightarrow> error + message list" where
  "rephraseQuestionChainPrompt input =
     (case (input ''history'', input ''question'') of
        (Some (Msgs h), Some (Str q)) \<Rightarrow>
          Inr (SystemMessage REPHRASE_QUESTION_SYSTEM_TEMPLATE # h @
               [HumanMessage (''Rephrase the following question as a standalone question:'' @
                              [newline] @ q)])
      | _ \<Rightarrow> Inl TypeError)"

text \<open>Lines 102--105: the prompt, then the chat model; the output is the model's message.\<close>

definition rephraseQuestionChain :: "models \<Rightarrow> (chain_input, message) runnable" where
  "rephraseQuestionChain m =
     pipe (invoke_prompt rephraseQuestionChainPrompt)
          (ChatOpenAI (rephrase_model m) RephraseModelCall)"

subsection \<open>Answering (lines 113--131)\<close>

definition ANSWER_CHAIN_SYSTEM_TEMPLATE :: "string \<Rightarrow> string" where
  "ANSWER_CHAIN_SYSTEM_TEMPLATE ctx =
     ''You are an experienced customer service representative, '' @ [newline] @
     ''expert at interpreting and answering questions based on provided sources.'' @ [newline] @
     ''Using the below provided context and chat history, '' @ [newline] @
     ''answer the user's question to the best of '' @ [newline] @
     ''your ability '' @ [newline] @
     ''using only the resources provided. Be verbose!. If you don't know the answer, just suggest the customer to contact customer service for human assistance.'' @
     [newline] @ [newline] @
     ''<context>'' @ [newline] @ ctx @ [newline] @ ''</context>''"

definition answerGenerationChainPrompt :: "chain_input \<Rightarrow> error + message list" where
  "answerGenerationChainPrompt input =
     (case (input ''context'', input ''history'', input ''question'') of
        (Some (Str ctx), Some (Msgs h), Some (Str q)) \<Rightarrow>
          Inr (SystemMessage (ANSWER_CHAIN_SYSTEM_TEMPLATE ctx) # h @
               [HumanMessage (''Now, answer this question using the previous context and chat history:'' @
                              [newline] @ q)])
      | _ \<Rightarrow> Inl TypeError)"

subsection \<open>The chain of one turn (lines 136--146)\<close>

definition conversationalRetrievalChain :: "models \<Rightarrow> HNSWLib \<Rightarrow> (chain_input, string) runnable" where
  "conversationalRetrievalChain m loadedVectorStore =
     pipe (RunnablePassthrough_assign ''standalone_question'' Msg (rephraseQuestionChain m))
    (pipe (RunnablePassthrough_assign ''context'' Str (documentRetrievalChain m loadedVectorStore))
    (pipe (invoke_prompt answerGenerationChainPrompt)
    (pipe (ChatOpenAI (answer_model m) AnswerModelCall)
          StringOutputParser)))"

subsection \<open>History (lines 148--155)\<close>

text \<open>
  The message histories of the process are objects; a state holds the messages of each
  and the log of calls. Line 148 creates the only one, \<open>messageHistory\<close>.
\<close>

datatype history_ref = messageHistory

record 'r chat_state =
  histories :: "'r \<Rightarrow> message list"
  calls :: "call list"

text \<open>
  Modelled from the spec: the class \<open>RunnableWithMessageHistory\<close> of the runnable
  library, whose code is not in the repository. The specification's protocol of a turn
  is followed: the session's current history is what the stages see (here, placed in the
  input under \<open>historyMessagesKey\<close>); a user message of the question (the input under
  \<open>inputMessagesKey\<close>) and an assistant message of the answer are appended to the
  session's history, in that order, only after generation succeeds; a failure at any
  step ends the turn without a change of the history and is returned to the caller.
  The history of a session is the object \<open>getMessageHistory\<close> returns for its id.
\<close>

definition RunnableWithMessageHistory ::
  "(chain_input, string) runnable \<Rightarrow> (string \<Rightarrow> 'r) \<Rightarrow> string \<Rightarrow> string \<Rightarrow>
   string \<Rightarrow> chain_input \<Rightarrow> 'r chat_state \<Rightarrow> (error + string) \<times> 'r chat_state" where
  "RunnableWithMessageHistory runnable getHistory historyMessagesKey inputMessagesKey
       sessionId input st =
     (let h = getHistory sessionId;
          input1 = input(historyMessagesKey \<mapsto> Msgs (histories st h))
      in case runnable input1 (calls st) of
           (Inl err, cs) \<Rightarrow> (Inl err, st\<lparr>calls := cs\<rparr>)
         | (Inr answer, cs) \<Rightarrow>
             (case input1 inputMessagesKey of
                Some (Str q) \<Rightarrow>
                  (Inr answer,
                   st\<lparr>histories := (histories st)(h := histories st h @ [HumanMessage q, AIMessage answer]),
                      calls := cs\<rparr>)
              | _ \<Rightarrow> (Inl TypeError, st\<lparr>calls := cs\<rparr>)))"

text \<open>Line 152: \<open>(_sessionId) => messageHistory\<close>.\<close>

definition getMessageHistory :: "string \<Rightarrow> history_ref" where
  "getMessageHistory sessionId = messageHistory"

text \<open>Lines 150--155.\<close>

definition finalRetrievalChain ::
  "models \<Rightarrow> HNSWLib \<Rightarrow> string \<Rightarrow> chain_input \<Rightarrow> history_ref chat_state \<Rightarrow>
   (error + string) \<times> history_ref chat_state" where
  "finalRetrievalChain m loadedVectorStore =
     RunnableWithMessageHistory (conversationalRetrievalChain m loadedVectorStore)
       getMessageHistory ''history'' ''question''"

text \<open>The history a session id stands for in a state.\<close>

definition session_history :: "history_ref chat_state \<Rightarrow> string \<Rightarrow> message list" where
  "session_history st sessionId = histories st (getMessageHistory sessionId)"

subsection \<open>The question loop (lines 165--178)\<close>

text \<open>Lines 167--171: one question, asked under the session id \<open>test\<close>.\<close>

definition askQuestion ::
  "models \<Rightarrow> HNSWLib \<Rightarrow> string \<Rightarrow> history_ref chat_state \<Rightarrow>
   (error + string) \<times> history_ref chat_state" where
  "askQuestion m loadedVectorStore question =
     finalRetrievalChain m loadedVectorStore ''test'' [''question'' \<mapsto> Str question]"

text \<open>
  The loop over the lines typed: each answer is printed and the next question asked;
  an error of a turn is not caught, and the loop ends with it.
\<close>

fun askQuestions ::
  "models \<Rightarrow> HNSWLib \<Rightarrow> string list \<Rightarrow> history_ref chat_state \<Rightarrow>
   (error + string list) \<times> history_ref chat_state" where
  "askQuestions m vs [] st = (Inr [], st)"
| "askQuestions m vs (q # qs) st =
     (case askQuestion m vs q st of
        (Inl err, st1) \<Rightarrow> (Inl err, st1)
      | (Inr finalResult, st1) \<Rightarrow>
          (case askQuestions m vs qs st1 of
             (Inl err, st2) \<Rightarrow> (Inl err, st2)
           | (Inr rest, st2) \<Rightarrow> (Inr (finalResult # rest), st2)))"

text \<open>The messages \<open>n\<close> completed turns leave: question, answer, question, answer, ...\<close>

fun turn_messages :: "string list \<Rightarrow> string list \<Rightarrow> message list" where
  "turn_messages (q # qs) (a # as) = HumanMessage q # AIMessage a # turn_messages qs as"
| "turn_messages qs as = []"

text \<open>The queries the retriever was called with, and the prompts the answer model was shown.\<close>

fun retriever_queries :: "call list \<Rightarrow> string list" where
  "retriever_queries [] = []"
| "retriever_queries (RetrieverCall q # cs) = q # retriever_queries cs"
| "retriever_queries (c # cs) = retriever_queries cs"

fun answer_prompts :: "call list \<Rightarrow> message list list" where
  "answer_prompts [] = []"
| "answer_prompts (AnswerModelCall p # cs) = p # answer_prompts cs"
| "answer_prompts (c # cs) = answer_prompts cs"

section \<open>Concrete collaborators and inputs\<close>

text \<open>
  A small world to run the definitions in: a corpus of one line, a digest that depends
  on the length of the bytes only, a loader that makes one document of the text, an
  embedding of one number, and storage that never fails.
\<close>

definition demo_env :: env where
  "demo_env =
     \<lparr>sha256 = (\<lambda>bytes. of_nat (length bytes)),
      csv_parse = (\<lambda>txt. Inr [\<lparr>pageContent = txt, metadata = []\<rparr>]),
      embedDocuments = (\<lambda>ts. Inr (map (\<lambda>t. Vector [int (length t)]) ts)),
      save_fails = (\<lambda>ix. False),
      save_residue = (\<lambda>ix old. old),
      write_fails = (\<lambda>p. False)\<rparr>"

text \<open>The same, with a vector store that cannot be saved.\<close>

definition demo_env_save_fails :: env where
  "demo_env_save_fails = demo_env\<lparr>save_fails := (\<lambda>ix. True)\<rparr>"

definition demo_corpus :: string where
  "demo_corpus = ''question,answer''"

definition demo_index :: HNSWLib where
  "demo_index = HNSWLib [\<lparr>pageContent = demo_corpus, metadata = []\<rparr>] [Vector [15]]"

text \<open>First run: the corpus, no hash file, no vector store.\<close>

definition demo_world :: world where
  "demo_world = \<lparr>files = [CSV_FILE_PATH \<mapsto> Readable demo_corpus], vector_db = None, events = []\<rparr>"

text \<open>A hash file holding the fingerprint of the corpus, and the store of an earlier run.\<close>

definition same_sidecar_world :: world where
  "same_sidecar_world =
     \<lparr>files = [CSV_FILE_PATH \<mapsto> Readable demo_corpus,
               HASH_FILE_PATH \<mapsto> Readable (digest_hex (sha256 demo_env demo_corpus))],
      vector_db = Some demo_index, events = []\<rparr>"

text \<open>A hash file holding another fingerprint.\<close>

definition stale_sidecar_world :: world where
  "stale_sidecar_world =
     \<lparr>files = [CSV_FILE_PATH \<mapsto> Readable demo_corpus, HASH_FILE_PATH \<mapsto> Readable ''0000''],
      vector_db = Some demo_index, events = []\<rparr>"

text \<open>A hash file that is present and cannot be read.\<close>

definition unreadable_sidecar_world :: world where
  "unreadable_sidecar_world =
     \<lparr>files = [CSV_FILE_PATH \<mapsto> Readable demo_corpus, HASH_FILE_PATH \<mapsto> Unreadable],
      vector_db = Some demo_index, events = []\<rparr>"

text \<open>A hash file that is present and empty.\<close>

definition empty_sidecar_world :: world where
  "empty_sidecar_world =
     \<lparr>files = [CSV_FILE_PATH \<mapsto> Readable demo_corpus, HASH_FILE_PATH \<mapsto> Readable []],
      vector_db = Some demo_index, events = []\<rparr>"

definition demo_docs :: "document list" where
  "demo_docs =
     [\<lparr>pageContent = ''A'', metadata = []\<rparr>,
      \<lparr>pageContent = ''B'', metadata = []\<rparr>,
      \<lparr>pageContent = ''C'', metadata = []\<rparr>]"

text \<open>
  Collaborators of a conversation: a rephrasing model that always returns the same
  standalone question, a search that returns the first four documents of the store, and
  an answering model that answers until eight calls have been made and fails from then
  on (the third turn is the first to meet the failure).
\<close>

definition demo_store :: HNSWLib where
  "demo_store = HNSWLib [\<lparr>pageContent = ''Refunds within 30 days.'', metadata = []\<rparr>] [Vector [23]]"

definition demo_models :: models where
  "demo_models =
     \<lparr>similaritySearch = (\<lambda>cs vs q. Inr (take 4 (docstore vs))),
      rephrase_model = (\<lambda>cs msgs. Inr ''What is the returns policy?''),
      answer_model = (\<lambda>cs msgs. if length cs < 8 then Inr ''Within 30 days.'' else Inl ModelCallError)\<rparr>"

text \<open>The same collaborators with a rephrasing model that fails, and with a search that fails.\<close>

definition demo_models_rephrase_fails :: models where
  "demo_models_rephrase_fails = demo_models\<lparr>rephrase_model := (\<lambda>cs msgs. Inl ModelCallError)\<rparr>"

definition demo_models_search_fails :: models where
  "demo_models_search_fails = demo_models\<lparr>similaritySearch := (\<lambda>cs vs q. Inl EmbeddingError)\<rparr>"

text \<open>The state of a process that has asked nothing yet.\<close>

definition demo_state :: "history_ref chat_state" where
  "demo_state = \<lparr>histories = (\<lambda>r. []), calls = []\<rparr>"

definition demo_questions :: "string list" where
  "demo_questions = [''What is your refund policy?'', ''What about returns?'']"

text \<open>The input of the chain in a second turn: the follow-up question and the first turn.\<close>

definition demo_input :: chain_input where
  "demo_input =
     [''question'' \<mapsto> Str ''What about returns?'',
      ''history'' \<mapsto> Msgs [HumanMessage ''What is your refund policy?'', AIMessage ''Within 30 days.'']]"

section \<open>Properties of the indexing step\<close>

lemma digest_hex_length: "length (digest_hex d) = 64"
  by (simp add: digest_hex_def)

lemma digest_hex_nonempty: "digest_hex d \<noteq> []"
  using digest_hex_length [of d] by auto

lemma paths_distinct: "CSV_FILE_PATH \<noteq> HASH_FILE_PATH"
  by (simp add: CSV_FILE_PATH_def HASH_FILE_PATH_def)

lemma calculateHash_nonempty: "calculateHash e fs p = Inr h \<Longrightarrow> h \<noteq> []"
  by (auto simp: calculateHash_def digest_hex_nonempty split: sum.splits)

lemma readFileSync_exists: "readFileSync fs p = Inr c \<Longrightarrow> existsSync fs p"
  by (auto simp: readFileSync_def existsSync_def split: option.splits)

lemma shouldReindex_absent:
  assumes "readFileSync fs CSV_FILE_PATH = Inr bytes" and "\<not> existsSync fs HASH_FILE_PATH"
  shows "shouldReindex e fs = Inr True"
  using assms
  by (simp add: shouldReindex_def calculateHash_def previousHash_def rebuild_condition_def)

lemma shouldReindex_stored:
  assumes "readFileSync fs CSV_FILE_PATH = Inr bytes"
    and "readFileSync fs HASH_FILE_PATH = Inr stored"
  shows "shouldReindex e fs = Inr (stored \<noteq> digest_hex (sha256 e bytes))"
  using assms readFileSync_exists [OF assms(2)] digest_hex_nonempty [of "sha256 e bytes"]
  by (auto simp: shouldReindex_def calculateHash_def previousHash_def rebuild_condition_def)

lemma rebuild_result:
  assumes "rebuild e h w = (r, w1)"
  shows "(case r of
            Inr u \<Rightarrow>
              (\<exists>docs vs. loader_load e w = Inr docs \<and>
                 embedDocuments e (map pageContent docs) = Inr vs \<and>
                 events w1 = events w @ [EmbedCall (map pageContent docs),
                                         IndexSaved (HNSWLib docs vs),
                                         FileWritten HASH_FILE_PATH h] \<and>
                 vector_db w1 = Some (HNSWLib docs vs) \<and>
                 files w1 = (files w)(HASH_FILE_PATH \<mapsto> Readable h))
          | Inl err \<Rightarrow>
              files w1 = files w \<and>
              (\<exists>evs. events w1 = events w @ evs \<and> (\<forall>p c. FileWritten p c \<notin> set evs)))"
  using assms
  by (auto simp: rebuild_def fromDocuments_def save_def writeFileSync_def Let_def
           split: sum.splits if_splits prod.splits)

lemma startup_fingerprint_equal:
  assumes "calculateHash e (files w) CSV_FILE_PATH = Inr h"
    and "readFileSync (files w) HASH_FILE_PATH = Inr h"
  shows "startup e w = (load w, w)"
proof -
  have "previousHash (files w) = Inr (Some h)"
    using assms(2) readFileSync_exists [OF assms(2)] by (simp add: previousHash_def)
  moreover have "\<not> rebuild_condition (Some h) h"
    using calculateHash_nonempty [OF assms(1)] by (simp add: rebuild_condition_def)
  ultimately show ?thesis
    using assms(1) by (simp add: startup_def)
qed

lemma startup_again:
  assumes "startup e w0 = (Inr ix, w1)"
  shows "startup e w1 = (Inr ix, w1)"
proof -
  from assms obtain h prev where h: "calculateHash e (files w0) CSV_FILE_PATH = Inr h"
    and prev: "previousHash (files w0) = Inr prev"
    by (auto simp: startup_def split: sum.splits)
  show ?thesis
  proof (cases "rebuild_condition prev h")
    case True
    with assms h prev have rb: "rebuild e h w0 = (Inr (), w1)" and ld: "load w1 = Inr ix"
      by (auto simp: startup_def split: sum.splits prod.splits)
    from rebuild_result [OF rb] have fs: "files w1 = (files w0)(HASH_FILE_PATH \<mapsto> Readable h)"
      by auto
    have "calculateHash e (files w1) CSV_FILE_PATH = Inr h"
      using h paths_distinct by (simp add: fs calculateHash_def readFileSync_def)
    moreover have "readFileSync (files w1) HASH_FILE_PATH = Inr h"
      by (simp add: fs readFileSync_def)
    ultimately show ?thesis
      using startup_fingerprint_equal ld by simp
  next
    case False
    with assms h prev have "w1 = w0"
      by (auto simp: startup_def split: sum.splits prod.splits)
    with assms show ?thesis by simp
  qed
qed

lemmas index_defs = startup_def calculateHash_def previousHash_def existsSync_def
  readFileSync_def rebuild_condition_def rebuild_def loader_load_def fromDocuments_def
  save_def writeFileSync_def load_def shouldReindex_def

lemmas demo_index_defs = demo_env_def demo_env_save_fails_def demo_world_def demo_corpus_def
  demo_index_def CSV_FILE_PATH_def HASH_FILE_PATH_def

text \<open>
  Claim C5. When a start of the process has completed and the process is started again
  with nothing changed in between, the second start returns the same vector store and
  leaves the world as it was: no event is added (so no call of the embedding endpoint)
  and the saved index is the same. In general, a start that finds the stored fingerprint
  equal to the fresh one does not enter the rebuild branch: it only loads.
\<close>

theorem startup_twice_idempotent:
  "(startup e w0 = (Inr ix, w1) \<longrightarrow>
      startup e w1 = (Inr ix, w1) \<and>
      embedding_calls (drop (length (events w1)) (events (snd (startup e w1)))) = 0 \<and>
      vector_db (snd (startup e w1)) = vector_db w1) \<and>
   (calculateHash e (files w) CSV_FILE_PATH = Inr h \<and>
    readFileSync (files w) HASH_FILE_PATH = Inr h \<longrightarrow>
      startup e w = (load w, w))"
proof (intro conjI impI)
  assume first: "startup e w0 = (Inr ix, w1)"
  show again: "startup e w1 = (Inr ix, w1)"
    by (rule startup_again [OF first])
  show "embedding_calls (drop (length (events w1)) (events (snd (startup e w1)))) = 0"
    by (simp add: again embedding_calls_def)
  show "vector_db (snd (startup e w1)) = vector_db w1"
    by (simp add: again)
next
  assume "calculateHash e (files w) CSV_FILE_PATH = Inr h \<and>
    readFileSync (files w) HASH_FILE_PATH = Inr h"
  then show "startup e w = (load w, w)"
    using startup_fingerprint_equal by blast
qed

text \<open>
  The first start in the small world rebuilds (one embedding call) and succeeds; the
  second changes nothing. So does a start that finds the right fingerprint stored.
\<close>

theorem startup_twice_idempotent_witness:
  "fst (startup demo_env demo_world) = Inr demo_index \<and>
   embedding_calls (events (snd (startup demo_env demo_world))) = 1 \<and>
   startup demo_env (snd (startup demo_env demo_world)) =
     (Inr demo_index, snd (startup demo_env demo_world)) \<and>
   startup demo_env same_sidecar_world = (Inr demo_index, same_sidecar_world)"
proof -
  let ?w1 = "snd (startup demo_env demo_world)"
  have f: "fst (startup demo_env demo_world) = Inr demo_index"
    by (simp add: index_defs demo_index_defs)
  have n: "embedding_calls (events ?w1) = 1"
    by (simp add: index_defs demo_index_defs embedding_calls_def)
  have run: "startup demo_env demo_world = (Inr demo_index, ?w1)"
    using f by (simp add: prod_eq_iff)
  have c: "calculateHash demo_env (files same_sidecar_world) CSV_FILE_PATH =
             Inr (digest_hex (sha256 demo_env demo_corpus))"
    by (simp add: calculateHash_def readFileSync_def same_sidecar_world_def CSV_FILE_PATH_def
          HASH_FILE_PATH_def)
  have r: "readFileSync (files same_sidecar_world) HASH_FILE_PATH =
             Inr (digest_hex (sha256 demo_env demo_corpus))"
    by (simp add: readFileSync_def same_sidecar_world_def)
  have l: "load same_sidecar_world = Inr demo_index"
    by (simp add: load_def same_sidecar_world_def)
  from startup_twice_idempotent [of demo_env demo_world demo_index ?w1 same_sidecar_world
      "digest_hex (sha256 demo_env demo_corpus)"] run c r l f n
  show ?thesis by simp
qed

text \<open>
  Claim C6. Whatever the rebuild branch returns, among the effects it has added: every
  write of the hash file happens in a rebuild that succeeds, writes the current
  fingerprint, and comes right after the save of the index built from the documents of
  the current corpus, which is then what the directory holds. A rebuild that succeeds
  ends with that write; a rebuild that fails at any step has written no file, so the
  hash file still holds what it held.
\<close>

theorem rebuild_index_before_fingerprint:
  assumes "rebuild e currentHash w = (r, w1)"
  shows "\<exists>evs. events w1 = events w @ evs \<and>
           (\<forall>i c. i < length evs \<and> evs ! i = FileWritten HASH_FILE_PATH c \<longrightarrow>
              r = Inr () \<and> c = currentHash \<and> 0 < i \<and>
              (\<exists>docs vs. loader_load e w = Inr docs \<and>
                 embedDocuments e (map pageContent docs) = Inr vs \<and>
                 evs ! (i - 1) = IndexSaved (HNSWLib docs vs) \<and>
                 vector_db w1 = Some (HNSWLib docs vs))) \<and>
           (r = Inr () \<longrightarrow>
              files w1 = (files w)(HASH_FILE_PATH \<mapsto> Readable currentHash) \<and>
              last evs = FileWritten HASH_FILE_PATH currentHash) \<and>
           (r \<noteq> Inr () \<longrightarrow> files w1 = files w)"
proof (cases r)
  case (Inl err)
  with rebuild_result [OF assms] obtain evs where
    fs: "files w1 = files w" and ev: "events w1 = events w @ evs" and
    no: "\<forall>p c. FileWritten p c \<notin> set evs"
    by auto
  from no have "\<forall>i c. i < length evs \<longrightarrow> evs ! i \<noteq> FileWritten HASH_FILE_PATH c"
    by (metis nth_mem)
  with fs ev Inl show ?thesis by auto
next
  case (Inr u)
  with rebuild_result [OF assms] obtain docs vs where
    ld: "loader_load e w = Inr docs" and
    em: "embedDocuments e (map pageContent docs) = Inr vs" and
    ev: "events w1 = events w @ [EmbedCall (map pageContent docs), IndexSaved (HNSWLib docs vs),
                                 FileWritten HASH_FILE_PATH currentHash]" and
    db: "vector_db w1 = Some (HNSWLib docs vs)" and
    fs: "files w1 = (files w)(HASH_FILE_PATH \<mapsto> Readable currentHash)"
    by auto
  let ?evs = "[EmbedCall (map pageContent docs), IndexSaved (HNSWLib docs vs),
               FileWritten HASH_FILE_PATH currentHash]"
  have "\<forall>i c. i < length ?evs \<and> ?evs ! i = FileWritten HASH_FILE_PATH c \<longrightarrow>
              r = Inr () \<and> c = currentHash \<and> 0 < i \<and>
              (\<exists>docs vs. loader_load e w = Inr docs \<and>
                 embedDocuments e (map pageContent docs) = Inr vs \<and>
                 ?evs ! (i - 1) = IndexSaved (HNSWLib docs vs) \<and>
                 vector_db w1 = Some (HNSWLib docs vs))"
  proof (intro allI impI)
    fix i c
    assume a: "i < length ?evs \<and> ?evs ! i = FileWritten HASH_FILE_PATH c"
    then have "i = 0 \<or> i = 1 \<or> i = 2" by auto
    with a have "i = 2 \<and> c = currentHash" by auto
    with Inr ld em db show "r = Inr () \<and> c = currentHash \<and> 0 < i \<and>
              (\<exists>docs vs. loader_load e w = Inr docs \<and>
                 embedDocuments e (map pageContent docs) = Inr vs \<and>
                 ?evs ! (i - 1) = IndexSaved (HNSWLib docs vs) \<and>
                 vector_db w1 = Some (HNSWLib docs vs))"
      by auto
  qed
  with ev fs Inr show ?thesis
    by (intro exI [of _ ?evs]) simp
qed

text \<open>A rebuild that succeeds, and one whose save fails and leaves the files alone.\<close>

theorem rebuild_index_before_fingerprint_witness:
  "fst (rebuild demo_env ''abc'' demo_world) = Inr () \<and>
   events (snd (rebuild demo_env ''abc'' demo_world)) =
     [EmbedCall [demo_corpus], IndexSaved demo_index, FileWritten HASH_FILE_PATH ''abc''] \<and>
   vector_db (snd (rebuild demo_env ''abc'' demo_world)) = Some demo_index \<and>
   files (snd (rebuild demo_env ''abc'' demo_world)) HASH_FILE_PATH = Some (Readable ''abc'') \<and>
   fst (rebuild demo_env_save_fails ''abc'' demo_world) = Inl StorageError \<and>
   files (snd (rebuild demo_env_save_fails ''abc'' demo_world)) = files demo_world"
proof -
  let ?ok = "rebuild demo_env ''abc'' demo_world"
  let ?ko = "rebuild demo_env_save_fails ''abc'' demo_world"
  have f: "fst ?ok = Inr ()"
    by (simp add: index_defs demo_index_defs)
  then have run: "?ok = (Inr (), snd ?ok)"
    by (simp add: prod_eq_iff)
  have ev: "events (snd ?ok) =
     [EmbedCall [demo_corpus], IndexSaved demo_index, FileWritten HASH_FILE_PATH ''abc'']"
    by (simp add: index_defs demo_index_defs)
  have db: "vector_db (snd ?ok) = Some demo_index"
    by (simp add: index_defs demo_index_defs)
  have g: "fst ?ko = Inl StorageError"
    by (simp add: index_defs demo_index_defs)
  then have run2: "?ko = (Inl StorageError, snd ?ko)"
    by (simp add: prod_eq_iff)
  from rebuild_index_before_fingerprint [OF run]
  have "files (snd ?ok) = (files demo_world)(HASH_FILE_PATH \<mapsto> Readable ''abc'')"
    by auto
  then have "files (snd ?ok) HASH_FILE_PATH = Some (Readable ''abc'')"
    by simp
  moreover from rebuild_index_before_fingerprint [OF run2]
  have "files (snd ?ko) = files demo_world"
    by auto
  ultimately show ?thesis using f g ev db by simp
qed

text \<open>
  Claim C7. With a readable corpus, the decision is true when the hash file does not
  exist, and when the hash file can be read it is true exactly if what it holds differs
  from the fingerprint freshly computed over the bytes of the corpus.
\<close>

theorem shouldReindex_decision:
  assumes "readFileSync fs CSV_FILE_PATH = Inr bytes"
  shows "(\<not> existsSync fs HASH_FILE_PATH \<longrightarrow> shouldReindex e fs = Inr True) \<and>
         (\<forall>stored. readFileSync fs HASH_FILE_PATH = Inr stored \<longrightarrow>
            shouldReindex e fs = Inr (stored \<noteq> digest_hex (sha256 e bytes)))"
  using shouldReindex_absent [OF assms] shouldReindex_stored [OF assms] by blast

text \<open>No hash file; the right fingerprint stored; another fingerprint stored.\<close>

theorem shouldReindex_decision_witness:
  "shouldReindex demo_env (files demo_world) = Inr True \<and>
   shouldReindex demo_env (files same_sidecar_world) = Inr False \<and>
   shouldReindex demo_env (files stale_sidecar_world) = Inr True"
proof -
  have c: "readFileSync (files demo_world) CSV_FILE_PATH = Inr demo_corpus"
      "readFileSync (files same_sidecar_world) CSV_FILE_PATH = Inr demo_corpus"
      "readFileSync (files stale_sidecar_world) CSV_FILE_PATH = Inr demo_corpus"
    by (simp_all add: readFileSync_def demo_world_def same_sidecar_world_def
          stale_sidecar_world_def CSV_FILE_PATH_def HASH_FILE_PATH_def)
  have a: "\<not> existsSync (files demo_world) HASH_FILE_PATH"
    by (simp add: existsSync_def demo_world_def CSV_FILE_PATH_def HASH_FILE_PATH_def)
  have s: "readFileSync (files same_sidecar_world) HASH_FILE_PATH =
             Inr (digest_hex (sha256 demo_env demo_corpus))"
    by (simp add: readFileSync_def same_sidecar_world_def)
  have t: "readFileSync (files stale_sidecar_world) HASH_FILE_PATH = Inr ''0000''"
    by (simp add: readFileSync_def stale_sidecar_world_def)
  have ne: "''0000'' \<noteq> digest_hex (sha256 demo_env demo_corpus)"
  proof
    assume "''0000'' = digest_hex (sha256 demo_env demo_corpus)"
    then have "length ''0000'' = length (digest_hex (sha256 demo_env demo_corpus))"
      by (rule arg_cong)
    then show False by (simp add: digest_hex_length)
  qed
  from shouldReindex_decision [OF c(1), of demo_env] a
       shouldReindex_decision [OF c(2), of demo_env] s
       shouldReindex_decision [OF c(3), of demo_env] t ne
  show ?thesis by simp
qed

text \<open>
  Claim C8 as stated fails: with the hash file present and unreadable, and the corpus
  readable, the read of the hash file throws and the start fails with that error; no
  rebuild is done.
\<close>

theorem unreadable_sidecar_counterexample:
  "files unreadable_sidecar_world HASH_FILE_PATH = Some Unreadable \<and>
   readFileSync (files unreadable_sidecar_world) CSV_FILE_PATH = Inr demo_corpus \<and>
   previousHash (files unreadable_sidecar_world) = Inl (EACCES HASH_FILE_PATH) \<and>
   startup demo_env unreadable_sidecar_world =
     (Inl (EACCES HASH_FILE_PATH), unreadable_sidecar_world)"
  by (simp add: index_defs unreadable_sidecar_world_def demo_env_def CSV_FILE_PATH_def
        HASH_FILE_PATH_def)

text \<open>
  Claim C8, amended. When the hash file is present and cannot be read, the start of the
  process fails and leaves the world as it was: with the error of the corpus read when
  that read fails first, and otherwise with the error of reading the hash file.
\<close>

theorem unreadable_sidecar_fails_startup:
  assumes "files w HASH_FILE_PATH = Some Unreadable"
  shows "startup e w =
           (Inl (case readFileSync (files w) CSV_FILE_PATH of
                   Inl err \<Rightarrow> err
                 | Inr bytes \<Rightarrow> EACCES HASH_FILE_PATH), w)"
  using assms
  by (simp add: startup_def calculateHash_def previousHash_def existsSync_def readFileSync_def
           split: sum.splits option.splits fsentry.splits)

text \<open>The world with the unreadable hash file: the start fails and nothing has happened.\<close>

theorem unreadable_sidecar_fails_startup_witness:
  "files unreadable_sidecar_world HASH_FILE_PATH = Some Unreadable \<and>
   fst (startup demo_env unreadable_sidecar_world) = Inl (EACCES HASH_FILE_PATH) \<and>
   events (snd (startup demo_env unreadable_sidecar_world)) = []"
proof -
  have u: "files unreadable_sidecar_world HASH_FILE_PATH = Some Unreadable"
    by (simp add: unreadable_sidecar_world_def)
  have c: "readFileSync (files unreadable_sidecar_world) CSV_FILE_PATH = Inr demo_corpus"
    by (simp add: readFileSync_def unreadable_sidecar_world_def CSV_FILE_PATH_def
          HASH_FILE_PATH_def)
  have ev: "events unreadable_sidecar_world = []"
    by (simp add: unreadable_sidecar_world_def)
  from unreadable_sidecar_fails_startup [OF u, of demo_env] u c ev
  show ?thesis by simp
qed

text \<open>
  Claim C10. When the hash file exists and is empty and the corpus can be fingerprinted,
  the decision is to rebuild, the condition has the value it has for an absent hash
  file, and the start of the process runs the rebuild branch and then loads.
\<close>

theorem empty_sidecar_rebuilds:
  assumes "files w HASH_FILE_PATH = Some (Readable [])"
    and "calculateHash e (files w) CSV_FILE_PATH = Inr h"
  shows "shouldReindex e (files w) = Inr True \<and>
         rebuild_condition (Some []) h = rebuild_condition None h \<and>
         startup e w = (case rebuild e h w of
                          (Inl err, w1) \<Rightarrow> (Inl err, w1)
                        | (Inr u, w1) \<Rightarrow> (load w1, w1))"
  using assms
  by (simp add: shouldReindex_def startup_def previousHash_def existsSync_def readFileSync_def
        rebuild_condition_def)

text \<open>The world with the empty hash file: the start embeds, saves and writes the fingerprint.\<close>

theorem empty_sidecar_rebuilds_witness:
  "files empty_sidecar_world HASH_FILE_PATH = Some (Readable []) \<and>
   shouldReindex demo_env (files empty_sidecar_world) = Inr True \<and>
   fst (startup demo_env empty_sidecar_world) = Inr demo_index \<and>
   events (snd (startup demo_env empty_sidecar_world)) =
     [EmbedCall [demo_corpus], IndexSaved demo_index,
      FileWritten HASH_FILE_PATH (digest_hex (sha256 demo_env demo_corpus))]"
proof -
  have u: "files empty_sidecar_world HASH_FILE_PATH = Some (Readable [])"
    by (simp add: empty_sidecar_world_def)
  have c: "calculateHash demo_env (files empty_sidecar_world) CSV_FILE_PATH =
             Inr (digest_hex (sha256 demo_env demo_corpus))"
    by (simp add: calculateHash_def readFileSync_def empty_sidecar_world_def CSV_FILE_PATH_def
          HASH_FILE_PATH_def)
  have rb: "rebuild demo_env (digest_hex (sha256 demo_env demo_corpus)) empty_sidecar_world =
      (Inr (), empty_sidecar_world
         \<lparr>files := (files empty_sidecar_world)
              (HASH_FILE_PATH \<mapsto> Readable (digest_hex (sha256 demo_env demo_corpus))),
          vector_db := Some demo_index,
          events := [EmbedCall [demo_corpus], IndexSaved demo_index,
             FileWritten HASH_FILE_PATH (digest_hex (sha256 demo_env demo_corpus))]\<rparr>)"
    by (simp add: rebuild_def loader_load_def fromDocuments_def save_def writeFileSync_def
          readFileSync_def empty_sidecar_world_def demo_env_def demo_index_def demo_corpus_def
          CSV_FILE_PATH_def HASH_FILE_PATH_def)
  from empty_sidecar_rebuilds [OF u c] u rb
  show ?thesis by (simp add: load_def)
qed

section \<open>Properties of the formatting of retrieved documents\<close>

lemma join_Cons_nonempty: "zs \<noteq> [] \<Longrightarrow> join (x # zs) sep = x @ sep @ join zs sep"
  by (cases zs) simp_all

lemma join_Cons: "join (x # xs) sep = x @ concat (map (\<lambda>y. sep @ y) xs)"
  by (induction xs arbitrary: x) (simp_all add: join_Cons_nonempty)

lemma join_append:
  "ys \<noteq> [] \<Longrightarrow> join (xs @ ys) sep = concat (map (\<lambda>x. x @ sep) xs) @ join ys sep"
  by (induction xs) (simp_all add: join_Cons_nonempty)

lemma split_two:
  assumes "i < j" and "j < length xs"
  shows "xs = take i xs @ xs ! i # take (j - i - 1) (drop (Suc i) xs) @ xs ! j # drop (Suc j) xs"
proof -
  have i: "i < length xs" using assms by simp
  let ?r = "drop (Suc i) xs"
  have jr: "j - i - 1 < length ?r" using assms by simp
  have "?r = take (j - i - 1) ?r @ ?r ! (j - i - 1) # drop (Suc (j - i - 1)) ?r"
    using id_take_nth_drop [OF jr] .
  moreover have "?r ! (j - i - 1) = xs ! j" using assms by simp
  moreover have "drop (Suc (j - i - 1)) ?r = drop (Suc j) xs" using assms by simp
  ultimately have "?r = take (j - i - 1) ?r @ xs ! j # drop (Suc j) xs" by simp
  with id_take_nth_drop [OF i] show ?thesis by simp
qed

lemma convert_closed_form:
  "convertDocsToString docs =
     (case docs of
        [] \<Rightarrow> []
      | d # ds \<Rightarrow> doc_block d @ concat (map (\<lambda>x. newline # doc_block x) ds))"
  by (cases docs) (simp_all add: convertDocsToString_def join_Cons comp_def)

lemma convert_order:
  assumes "i < j" and "j < length docs"
  shows "convertDocsToString docs =
     concat (map (\<lambda>d. doc_block d @ [newline]) (take i docs)) @
     doc_block (docs ! i) @ [newline] @
     concat (map (\<lambda>d. doc_block d @ [newline]) (take (j - i - 1) (drop (Suc i) docs))) @
     doc_block (docs ! j) @
     concat (map (\<lambda>d. newline # doc_block d) (drop (Suc j) docs))"
proof -
  let ?A = "take i docs" and ?B = "take (j - i - 1) (drop (Suc i) docs)" and ?C = "drop (Suc j) docs"
  have "map doc_block docs = map doc_block (?A @ docs ! i # ?B @ docs ! j # ?C)"
    using split_two [OF assms] by simp
  then have "convertDocsToString docs =
      join (map doc_block ?A @ (doc_block (docs ! i) # map doc_block ?B @ doc_block (docs ! j) # map doc_block ?C)) [newline]"
    by (simp add: convertDocsToString_def)
  also have "\<dots> = concat (map (\<lambda>x. x @ [newline]) (map doc_block ?A)) @
      join (doc_block (docs ! i) # map doc_block ?B @ doc_block (docs ! j) # map doc_block ?C) [newline]"
    by (rule join_append) simp
  also have "join (doc_block (docs ! i) # map doc_block ?B @ doc_block (docs ! j) # map doc_block ?C) [newline]
      = doc_block (docs ! i) @ [newline] @ join (map doc_block ?B @ doc_block (docs ! j) # map doc_block ?C) [newline]"
    by (rule join_Cons_nonempty) simp
  also have "join (map doc_block ?B @ doc_block (docs ! j) # map doc_block ?C) [newline]
      = concat (map (\<lambda>x. x @ [newline]) (map doc_block ?B)) @ join (doc_block (docs ! j) # map doc_block ?C) [newline]"
    by (rule join_append) simp
  also have "join (doc_block (docs ! j) # map doc_block ?C) [newline]
      = doc_block (docs ! j) @ concat (map (\<lambda>y. [newline] @ y) (map doc_block ?C))"
    by (rule join_Cons)
  finally show ?thesis by (simp add: comp_def)
qed

text \<open>
  Claim C9. The string made of the retrieved documents is the blocks of the documents,
  each the content between the lines \<open><doc>\<close> and \<open></doc>\<close>, with one newline between
  consecutive blocks; and for any two positions \<open>i < j\<close> of the sequence, the string is
  the blocks of the documents before \<open>i\<close>, the block of document \<open>i\<close>, the blocks of
  the documents between, the block of document \<open>j\<close>, and the blocks of the documents
  after, in this order.
\<close>

theorem convertDocsToString_order:
  "convertDocsToString docs =
     (case docs of
        [] \<Rightarrow> []
      | d # ds \<Rightarrow>
          (''<doc>'' @ [newline] @ pageContent d @ [newline] @ ''</doc>'') @
          concat (map (\<lambda>x. newline # ''<doc>'' @ [newline] @ pageContent x @ [newline] @ ''</doc>'') ds)) \<and>
   (\<forall>i j. i < j \<and> j < length docs \<longrightarrow>
      convertDocsToString docs =
        concat (map (\<lambda>d. doc_block d @ [newline]) (take i docs)) @
        doc_block (docs ! i) @ [newline] @
        concat (map (\<lambda>d. doc_block d @ [newline]) (take (j - i - 1) (drop (Suc i) docs))) @
        doc_block (docs ! j) @
        concat (map (\<lambda>d. newline # doc_block d) (drop (Suc j) docs)))"
proof (intro conjI allI impI)
  show "convertDocsToString docs =
     (case docs of
        [] \<Rightarrow> []
      | d # ds \<Rightarrow>
          (''<doc>'' @ [newline] @ pageContent d @ [newline] @ ''</doc>'') @
          concat (map (\<lambda>x. newline # ''<doc>'' @ [newline] @ pageContent x @ [newline] @ ''</doc>'') ds))"
    using convert_closed_form [of docs] by (simp add: doc_block_def split: list.splits)
next
  fix i j
  assume "i < j \<and> j < length docs"
  then show "convertDocsToString docs =
        concat (map (\<lambda>d. doc_block d @ [newline]) (take i docs)) @
        doc_block (docs ! i) @ [newline] @
        concat (map (\<lambda>d. doc_block d @ [newline]) (take (j - i - 1) (drop (Suc i) docs))) @
        doc_block (docs ! j) @
        concat (map (\<lambda>d. newline # doc_block d) (drop (Suc j) docs))"
    using convert_order by blast
qed

text \<open>Three documents, the first and the last taken as the pair.\<close>

theorem convertDocsToString_order_witness:
  "(0::nat) < 2 \<and> 2 < length demo_docs \<and>
   convertDocsToString demo_docs =
     ''<doc>'' @ [newline] @ ''A'' @ [newline] @ ''</doc>'' @ [newline] @
     ''<doc>'' @ [newline] @ ''B'' @ [newline] @ ''</doc>'' @ [newline] @
     ''<doc>'' @ [newline] @ ''C'' @ [newline] @ ''</doc>''"
proof -
  have l: "(0::nat) < 2 \<and> 2 < length demo_docs"
    by (simp add: demo_docs_def)
  from convertDocsToString_order [of demo_docs] l
  have "convertDocsToString demo_docs =
        concat (map (\<lambda>d. doc_block d @ [newline]) (take 0 demo_docs)) @
        doc_block (demo_docs ! 0) @ [newline] @
        concat (map (\<lambda>d. doc_block d @ [newline]) (take (2 - 0 - 1) (drop (Suc 0) demo_docs))) @
        doc_block (demo_docs ! 2) @
        concat (map (\<lambda>d. newline # doc_block d) (drop (Suc 2) demo_docs))"
    by blast
  then show ?thesis
    using l by (simp add: demo_docs_def doc_block_def)
qed

section \<open>Properties of the conversational chain\<close>

lemmas chain_defs = askQuestion_def finalRetrievalChain_def RunnableWithMessageHistory_def
  conversationalRetrievalChain_def pipe_def RunnablePassthrough_assign_def RunnableLambda_def
  invoke_prompt_def ChatOpenAI_def StringOutputParser_def retriever_def documentRetrievalChain_def
  rephraseQuestionChain_def rephraseQuestionChainPrompt_def answerGenerationChainPrompt_def
  getMessageHistory_def session_history_def

lemmas demo_chain_defs = demo_models_def demo_models_rephrase_fails_def
  demo_models_search_fails_def demo_state_def demo_store_def demo_questions_def demo_input_def

text \<open>
  One run of the chain of a turn, stage by stage. The text \<open>s\<close> the rephrasing model
  returns is stored under \<open>standalone_question\<close> and read by no later stage.
\<close>

lemma conversationalRetrievalChain_stages:
  assumes "input ''question'' = Some (Str q)" and "input ''history'' = Some (Msgs h)"
  shows "conversationalRetrievalChain m vs input cs =
    (let p1 = SystemMessage REPHRASE_QUESTION_SYSTEM_TEMPLATE # h @
              [HumanMessage (''Rephrase the following question as a standalone question:'' @
                             [newline] @ q)];
         cs1 = cs @ [RephraseModelCall p1];
         cs2 = cs1 @ [RetrieverCall q]
     in case rephrase_model m cs p1 of
          Inl err \<Rightarrow> (Inl err, cs1)
        | Inr s \<Rightarrow>
            (case similaritySearch m cs1 vs q of
               Inl err \<Rightarrow> (Inl err, cs2)
             | Inr docs \<Rightarrow>
                 (let p2 = SystemMessage (ANSWER_CHAIN_SYSTEM_TEMPLATE (convertDocsToString docs)) # h @
                           [HumanMessage (''Now, answer this question using the previous context and chat history:'' @
                                          [newline] @ q)]
                  in case answer_model m cs2 p2 of
                       Inl err \<Rightarrow> (Inl err, cs2 @ [AnswerModelCall p2])
                     | Inr a \<Rightarrow> (Inr a, cs2 @ [AnswerModelCall p2]))))"
  using assms
  by (simp add: conversationalRetrievalChain_def pipe_def RunnablePassthrough_assign_def
        RunnableLambda_def invoke_prompt_def ChatOpenAI_def StringOutputParser_def retriever_def
        documentRetrievalChain_def rephraseQuestionChain_def rephraseQuestionChainPrompt_def
        answerGenerationChainPrompt_def Let_def split: sum.splits)

lemma RunnableWithMessageHistory_failure:
  assumes "RunnableWithMessageHistory r g hk ik sid input st = (Inl err, st1)"
  shows "histories st1 = histories st"
  using assms
  by (auto simp: RunnableWithMessageHistory_def Let_def
           split: prod.splits sum.splits option.splits jsvalue.splits)

lemma RunnableWithMessageHistory_success:
  assumes "RunnableWithMessageHistory r g hk ik sid input st = (Inr a, st1)"
  shows "\<exists>q. (input(hk \<mapsto> Msgs (histories st (g sid)))) ik = Some (Str q) \<and>
             histories st1 = (histories st)(g sid := histories st (g sid) @ [HumanMessage q, AIMessage a])"
  using assms
  by (auto simp: RunnableWithMessageHistory_def Let_def
           split: prod.splits sum.splits option.splits jsvalue.splits)

lemma finalRetrievalChain_success:
  assumes "finalRetrievalChain m vs sid input st = (Inr a, st1)"
    and "input ''question'' = Some (Str q)"
  shows "histories st1 messageHistory = histories st messageHistory @ [HumanMessage q, AIMessage a]"
  using RunnableWithMessageHistory_success [OF assms(1) [unfolded finalRetrievalChain_def]] assms(2)
  by (auto simp: getMessageHistory_def)

lemma finalRetrievalChain_failure:
  assumes "finalRetrievalChain m vs sid input st = (Inl err, st1)"
  shows "histories st1 = histories st"
  using RunnableWithMessageHistory_failure [OF assms [unfolded finalRetrievalChain_def]] .

lemma askQuestion_success:
  assumes "askQuestion m vs q st = (Inr a, st1)"
  shows "session_history st1 sid = session_history st sid @ [HumanMessage q, AIMessage a]"
  using finalRetrievalChain_success [OF assms [unfolded askQuestion_def], of q]
  by (simp add: session_history_def getMessageHistory_def)

lemma askQuestions_history:
  "askQuestions m vs qs st0 = (Inr answers, st) \<Longrightarrow>
     length answers = length qs \<and>
     session_history st sid = session_history st0 sid @ turn_messages qs answers"
proof (induction qs arbitrary: st0 answers)
  case Nil
  then show ?case by simp
next
  case (Cons q qs)
  from Cons.prems obtain a st1 rest where
    a: "askQuestion m vs q st0 = (Inr a, st1)" and
    r: "askQuestions m vs qs st1 = (Inr rest, st)" and
    e: "answers = a # rest"
    by (auto split: prod.splits sum.splits)
  from Cons.IH [OF r] askQuestion_success [OF a, of sid] e show ?case by simp
qed

lemma length_turn_messages:
  "length answers = length qs \<Longrightarrow> length (turn_messages qs answers) = 2 * length qs"
  by (induction qs answers rule: turn_messages.induct) simp_all

lemma nth_turn_messages:
  "length answers = length qs \<Longrightarrow> i < 2 * length qs \<Longrightarrow>
     turn_messages qs answers ! i =
       (if even i then HumanMessage (qs ! (i div 2)) else AIMessage (answers ! (i div 2)))"
proof (induction qs answers arbitrary: i rule: turn_messages.induct)
  case (1 q qs a as)
  show ?case
  proof (cases i)
    case 0
    then show ?thesis by simp
  next
    case (Suc j)
    show ?thesis
    proof (cases j)
      case 0
      with Suc show ?thesis by simp
    next
      case (Suc k)
      with \<open>i = Suc j\<close> 1 show ?thesis by simp
    qed
  qed
qed simp_all

text \<open>
  Claim C1, at a follow-up question whose standalone form differs from it: the
  rephrasing stage produces the standalone question and stores it under
  \<open>standalone_question\<close>; the retriever is called once, with the original question and
  not with the standalone one; the answering model is shown the original question.
\<close>

theorem retrieval_query_is_original_question_demo:
  "fst (RunnablePassthrough_assign ''standalone_question'' Msg (rephraseQuestionChain demo_models)
          demo_input []) =
     Inr (demo_input(''standalone_question'' \<mapsto> Msg (AIMessage ''What is the returns policy?''))) \<and>
   retriever_queries (snd (conversationalRetrievalChain demo_models demo_store demo_input [])) =
     [''What about returns?''] \<and>
   map last (answer_prompts (snd (conversationalRetrievalChain demo_models demo_store demo_input []))) =
     [HumanMessage (''Now, answer this question using the previous context and chat history:'' @
                    [newline] @ ''What about returns?'')] \<and>
   ''What is the returns policy?'' \<noteq> ''What about returns?''"
  by (simp add: chain_defs demo_chain_defs)

text \<open>
  Claim C2 as stated fails: after a turn under the session id \<open>a\<close>, the messages of
  that turn are the history of the session id \<open>b\<close>, which was empty before.
\<close>

theorem history_shared_across_sessions_counterexample:
  "''a'' \<noteq> ''b'' \<and>
   session_history demo_state ''b'' = [] \<and>
   fst (finalRetrievalChain demo_models demo_store ''a''
          [''question'' \<mapsto> Str ''What is your refund policy?''] demo_state) =
     Inr ''Within 30 days.'' \<and>
   session_history
     (snd (finalRetrievalChain demo_models demo_store ''a''
             [''question'' \<mapsto> Str ''What is your refund policy?''] demo_state)) ''b'' =
     [HumanMessage ''What is your refund policy?'', AIMessage ''Within 30 days.'']"
  by (simp add: chain_defs demo_chain_defs)

text \<open>
  Claim C2, amended. Every session id stands for the same history object, so two
  session ids have the same history in every state, and the user message and the
  assistant message a successful turn of one session appends are appended to the
  history of every other session id as well.
\<close>

theorem history_shared_by_all_sessions:
  assumes "finalRetrievalChain m vs s1 input st = (Inr answer, st1)"
    and "input ''question'' = Some (Str q)"
  shows "getMessageHistory s1 = getMessageHistory s2 \<and>
         session_history st s2 = session_history st s1 \<and>
         session_history st1 s2 = session_history st s2 @ [HumanMessage q, AIMessage answer]"
  using finalRetrievalChain_success [OF assms]
  by (simp add: session_history_def getMessageHistory_def)

text \<open>A turn under \<open>a\<close>, read under \<open>b\<close>.\<close>

theorem history_shared_by_all_sessions_witness:
  "fst (finalRetrievalChain demo_models demo_store ''a''
          [''question'' \<mapsto> Str ''What is your refund policy?''] demo_state) =
     Inr ''Within 30 days.'' \<and>
   getMessageHistory ''a'' = getMessageHistory ''b'' \<and>
   session_history
     (snd (finalRetrievalChain demo_models demo_store ''a''
             [''question'' \<mapsto> Str ''What is your refund policy?''] demo_state)) ''b'' =
     [HumanMessage ''What is your refund policy?'', AIMessage ''Within 30 days.'']"
proof -
  let ?input = "[''question'' \<mapsto> Str ''What is your refund policy?'']"
  let ?r = "finalRetrievalChain demo_models demo_store ''a'' ?input demo_state"
  have f: "fst ?r = Inr ''Within 30 days.''"
    by (simp add: chain_defs demo_chain_defs)
  then have run: "?r = (Inr ''Within 30 days.'', snd ?r)"
    by (simp add: prod_eq_iff)
  have q: "?input ''question'' = Some (Str ''What is your refund policy?'')"
    by simp
  have e: "session_history demo_state ''b'' = []"
    by (simp add: session_history_def demo_state_def)
  from history_shared_by_all_sessions [OF run q, of "''b''"] e f
  show ?thesis by simp
qed

text \<open>
  Claim C3. After the turns of the questions \<open>qs\<close> have all succeeded, starting from
  an empty history, a turn that fails (whichever stage returned the error) leaves every
  history as it was: the history of the session is the messages of the completed turns,
  two for each of them.
\<close>

theorem failed_turn_leaves_history:
  assumes "askQuestions m vs qs st0 = (Inr answers, st1)"
    and "session_history st0 ''test'' = []"
    and "askQuestion m vs q st1 = (Inl err, st2)"
  shows "histories st2 = histories st1 \<and>
         session_history st2 ''test'' = turn_messages qs answers \<and>
         length (session_history st2 ''test'') = 2 * length qs"
proof -
  from finalRetrievalChain_failure [OF assms(3) [unfolded askQuestion_def]]
  have same: "histories st2 = histories st1" .
  from askQuestions_history [OF assms(1), of "''test''"] assms(2)
  have len: "length answers = length qs"
    and h1: "session_history st1 ''test'' = turn_messages qs answers"
    by simp_all
  from same have "session_history st2 ''test'' = session_history st1 ''test''"
    by (simp add: session_history_def)
  with same h1 length_turn_messages [OF len] show ?thesis by simp
qed

text \<open>
  Two turns succeed and the answering model fails in the third: four messages. A
  rephrasing model that fails and a search that fails, each in a first turn: no message.
\<close>

theorem failed_turn_leaves_history_witness:
  "fst (askQuestions demo_models demo_store demo_questions demo_state) =
     Inr [''Within 30 days.'', ''Within 30 days.''] \<and>
   fst (askQuestion demo_models demo_store ''And exchanges?''
          (snd (askQuestions demo_models demo_store demo_questions demo_state))) =
     Inl ModelCallError \<and>
   length (session_history
     (snd (askQuestion demo_models demo_store ''And exchanges?''
             (snd (askQuestions demo_models demo_store demo_questions demo_state)))) ''test'') = 4 \<and>
   fst (askQuestion demo_models_rephrase_fails demo_store ''And exchanges?'' demo_state) =
     Inl ModelCallError \<and>
   session_history
     (snd (askQuestion demo_models_rephrase_fails demo_store ''And exchanges?'' demo_state)) ''test'' = [] \<and>
   fst (askQuestion demo_models_search_fails demo_store ''And exchanges?'' demo_state) =
     Inl EmbeddingError \<and>
   session_history
     (snd (askQuestion demo_models_search_fails demo_store ''And exchanges?'' demo_state)) ''test'' = []"
proof -
  let ?two = "askQuestions demo_models demo_store demo_questions demo_state"
  let ?third = "askQuestion demo_models demo_store ''And exchanges?'' (snd ?two)"
  let ?re = "askQuestion demo_models_rephrase_fails demo_store ''And exchanges?'' demo_state"
  let ?se = "askQuestion demo_models_search_fails demo_store ''And exchanges?'' demo_state"
  have e: "session_history demo_state ''test'' = []"
    by (simp add: session_history_def demo_state_def)
  have f2: "fst ?two = Inr [''Within 30 days.'', ''Within 30 days.'']"
    by (simp add: chain_defs demo_chain_defs)
  then have run2: "?two = (Inr [''Within 30 days.'', ''Within 30 days.''], snd ?two)"
    by (simp add: prod_eq_iff)
  have f3: "fst ?third = Inl ModelCallError"
    by (simp add: chain_defs demo_chain_defs)
  then have run3: "?third = (Inl ModelCallError, snd ?third)"
    by (simp add: prod_eq_iff)
  have none: "askQuestions m vs [] demo_state = (Inr [], demo_state)" for m vs
    by simp
  have fr: "fst ?re = Inl ModelCallError"
    by (simp add: chain_defs demo_chain_defs)
  then have runr: "?re = (Inl ModelCallError, snd ?re)"
    by (simp add: prod_eq_iff)
  have fs: "fst ?se = Inl EmbeddingError"
    by (simp add: chain_defs demo_chain_defs)
  then have runs: "?se = (Inl EmbeddingError, snd ?se)"
    by (simp add: prod_eq_iff)
  from failed_turn_leaves_history [OF run2 e run3]
  have "length (session_history (snd ?third) ''test'') = 4"
    by (simp add: demo_questions_def)
  moreover from failed_turn_leaves_history [OF none e runr]
  have "session_history (snd ?re) ''test'' = []"
    by simp
  moreover from failed_turn_leaves_history [OF none e runs]
  have "session_history (snd ?se) ''test'' = []"
    by simp
  ultimately show ?thesis using f2 f3 fr fs by simp
qed

text \<open>
  Claim C4. When the turns of the questions \<open>qs\<close> have all succeeded, there is one
  answer for each question, and the history of the session is the history it had
  before followed by, for each turn in order, the user message of the question and then
  the assistant message of the answer; what was there before is kept as it was. From an
  empty history that is exactly two messages for each turn, the user message of turn
  \<open>i div 2\<close> at each even position \<open>i\<close> and its assistant message at the odd position
  after it.
\<close>

theorem history_after_turns:
  assumes "askQuestions m vs qs st0 = (Inr answers, st)"
  shows "length answers = length qs \<and>
         session_history st ''test'' = session_history st0 ''test'' @ turn_messages qs answers \<and>
         (session_history st0 ''test'' = [] \<longrightarrow>
            length (session_history st ''test'') = 2 * length qs \<and>
            (\<forall>i < 2 * length qs.
               session_history st ''test'' ! i =
                 (if even i then HumanMessage (qs ! (i div 2))
                  else AIMessage (answers ! (i div 2)))))"
proof -
  from askQuestions_history [OF assms, of "''test''"]
  have len: "length answers = length qs"
    and h: "session_history st ''test'' = session_history st0 ''test'' @ turn_messages qs answers"
    by simp_all
  show ?thesis
    using len h length_turn_messages [OF len] nth_turn_messages [OF len] by simp
qed

text \<open>Two turns from the empty history.\<close>

theorem history_after_turns_witness:
  "fst (askQuestions demo_models demo_store demo_questions demo_state) =
     Inr [''Within 30 days.'', ''Within 30 days.''] \<and>
   session_history (snd (askQuestions demo_models demo_store demo_questions demo_state)) ''test'' =
     [HumanMessage ''What is your refund policy?'', AIMessage ''Within 30 days.'',
      HumanMessage ''What about returns?'', AIMessage ''Within 30 days.''] \<and>
   length (session_history
     (snd (askQuestions demo_models demo_store demo_questions demo_state)) ''test'') = 4"
proof -
  let ?two = "askQuestions demo_models demo_store demo_questions demo_state"
  have e: "session_history demo_state ''test'' = []"
    by (simp add: session_history_def demo_state_def)
  have f2: "fst ?two = Inr [''Within 30 days.'', ''Within 30 days.'']"
    by (simp add: chain_defs demo_chain_defs)
  then have run2: "?two = (Inr [''Within 30 days.'', ''Within 30 days.''], snd ?two)"
    by (simp add: prod_eq_iff)
  from history_after_turns [OF run2] e f2
  show ?thesis by (simp add: demo_questions_def)
qed

end
